theory Spec2Isabelle
  imports Main "HOL-Library.Word" "HOL-Library.Multiset"
begin

unbundle bit_operations_syntax

section \<open>The credential generator of \<open>cmd/executorserver/main.go\<close>\<close>

text \<open>
  \<^verbatim>\<open>type credGen struct { cur uint32 }\<close>: the whole state of the generator is one
  32-bit unsigned counter.
\<close>

type_synonym uint32 = "32 word"

record credGen =
  cur :: uint32

text \<open>
  \<^verbatim>\<open>syscall.Credential\<close> of the Go standard library has the fields \<open>Uid\<close>, \<open>Gid\<close>,
  \<open>Groups\<close> and \<open>NoSetGroups\<close>. \<open>Get\<close> fills in the first two; the composite literal
  leaves the other two at their zero values (no supplementary groups, \<open>false\<close>).
\<close>

record Credential =
  Uid :: uint32
  Gid :: uint32
  Groups :: "uint32 list"
  NoSetGroups :: bool

text \<open>\<^verbatim>\<open>func newCredGen() *credGen { return &credGen{cur: 10000} }\<close>\<close>

definition newCredGen :: credGen where
  "newCredGen = \<lparr>cur = 10000\<rparr>"

text \<open>
  \<^verbatim>\<open>n := atomic.AddUint32(&c.cur, 1); return syscall.Credential{Uid: n, Gid: n}\<close>.
  \<open>atomic.AddUint32\<close> adds to the counter in one indivisible step and returns the
  \<^emph>\<open>new\<close> value; the addition is that of \<open>uint32\<close>, which wraps. The call is one
  transition of the generator: it yields the credential and the updated generator.
\<close>

definition Get :: "credGen \<Rightarrow> Credential \<times> credGen" where
  "Get c =
     (let n = cur c + 1
      in (\<lparr>Uid = n, Gid = n, Groups = [], NoSetGroups = False\<rparr>, c\<lparr>cur := n\<rparr>))"

text \<open>
  \<open>Get_calls m c\<close> performs \<open>m\<close> calls of \<open>Get\<close> one after the other on the generator
  \<open>c\<close> and collects the credentials in the order of the calls. Since every call is a
  single atomic addition, calls issued by several workers take effect in some such order.
\<close>

fun Get_calls :: "nat \<Rightarrow> credGen \<Rightarrow> Credential list \<times> credGen" where
  "Get_calls 0 c = ([], c)"
| "Get_calls (Suc m) c =
     (case Get c of (x, c') \<Rightarrow>
        (case Get_calls m c' of (xs, c'') \<Rightarrow> (x # xs, c'')))"

text \<open>The credential handed out by the call that follows \<open>k\<close> earlier calls.\<close>

definition Get_nth :: "nat \<Rightarrow> credGen \<Rightarrow> Credential" where
  "Get_nth k c = fst (Get (snd (Get_calls k c)))"

subsection \<open>Concurrent callers\<close>

text \<open>
  A worker that calls \<open>Get\<close> does two things: the atomic addition on the shared
  counter, which gives it the new value \<open>n\<close>, and then, on its own, the return of
  \<open>Credential{Uid: n, Gid: n}\<close>. Between the two it holds the credential made from
  \<open>n\<close>; other workers may add and return in the meantime.
\<close>

datatype caller = Idle | Holding Credential

text \<open>
  The shared generator, the workers, and the credentials returned to callers so far, in
  the order of their return.
\<close>

record callers =
  generator :: credGen
  workers :: "caller list"
  returned :: "Credential list"

text \<open>
  Worker \<open>w\<close> takes its next step: an idle worker starts a call and performs the
  atomic addition of \<open>Get\<close> on the shared generator; a worker that holds a credential
  returns it and is free for its next call.
\<close>

definition caller_step :: "nat \<Rightarrow> callers \<Rightarrow> callers" where
  "caller_step w s =
     (if w < length (workers s) then
        (case workers s ! w of
           Idle \<Rightarrow>
             (case Get (generator s) of
                (cred, g) \<Rightarrow> s\<lparr>generator := g, workers := (workers s)[w := Holding cred]\<rparr>)
         | Holding cred \<Rightarrow>
             s\<lparr>workers := (workers s)[w := Idle], returned := returned s @ [cred]\<rparr>)
      else s)"

text \<open>A schedule names, step by step, the worker that moves: any interleaving of calls.\<close>

fun interleave :: "nat list \<Rightarrow> callers \<Rightarrow> callers" where
  "interleave [] s = s"
| "interleave (w # ws) s = interleave ws (caller_step w s)"

definition callers_start :: "nat \<Rightarrow> credGen \<Rightarrow> callers" where
  "callers_start W c = \<lparr>generator = c, workers = replicate W Idle, returned = []\<rparr>"




section \<open>Start-up: \<open>main\<close> of \<open>cmd/executorserver/main.go\<close>\<close>

text \<open>The command-line flags with their declared defaults (lines 22 to 28).\<close>

record flags =
  addr :: string
  parallism :: int
  tmpFsParam :: string
  dir :: string
  silent :: bool
  netShare :: bool

definition default_flags :: flags where
  "default_flags =
     \<lparr>addr = '':5050'', parallism = 4, tmpFsParam = ''size=8m,nr_inodes=4k'',
      dir = [], silent = False, netShare = False\<rparr>"

text \<open>
  The calls made on \<open>mount.NewBuilder()\<close>, in the order of the source:
  \<open>WithBind source target readonly\<close>, \<open>WithProc\<close> and \<open>WithTmpfs target data\<close>.
\<close>

datatype Mount =
    WithBind string string bool
  | WithProc
  | WithTmpfs string string

definition mb :: "string \<Rightarrow> Mount list" where
  "mb tmpfs =
     [WithBind ''/bin'' ''bin'' True,
      WithBind ''/lib'' ''lib'' True,
      WithBind ''/lib64'' ''lib64'' True,
      WithBind ''/usr'' ''usr'' True,
      WithProc,
      WithBind ''/etc/alternatives'' ''etc/alternatives'' True,
      WithBind ''/etc/fpc.cfg'' ''etc/fpc.cfg'' True,
      WithBind ''/dev/null'' ''dev/null'' False,
      WithBind ''/var/lib/ghc'' ''var/lib/ghc'' True,
      WithTmpfs ''w'' tmpfs,
      WithTmpfs ''tmp'' tmpfs]"

text \<open>
  \<^verbatim>\<open>cgroup.NewBuilder("executorserver").WithCPUAcct().WithMemory().WithPids()\<close>: the
  controllers that \<open>main\<close> declares, under the prefix it names.
\<close>

record CgroupBuilder =
  Prefix :: string
  CPUAcct :: bool
  Memory :: bool
  Pids :: bool

definition cgb_declared :: CgroupBuilder where
  "cgb_declared = \<lparr>Prefix = ''executorserver'', CPUAcct = True, Memory = True, Pids = True\<rparr>"

text \<open>
  The flag word is a \<open>uintptr\<close> (64 bits on the platforms the sandbox runs on).
  The \<open>CLONE_NEW*\<close> constants are those of Go's \<open>syscall\<close> package on Linux.
\<close>

type_synonym uintptr = "64 word"

definition CLONE_NEWNS :: uintptr where "CLONE_NEWNS = 0x00020000"
definition CLONE_NEWUTS :: uintptr where "CLONE_NEWUTS = 0x04000000"
definition CLONE_NEWIPC :: uintptr where "CLONE_NEWIPC = 0x08000000"
definition CLONE_NEWPID :: uintptr where "CLONE_NEWPID = 0x20000000"
definition CLONE_NEWNET :: uintptr where "CLONE_NEWNET = 0x40000000"

text \<open>
  Lines 90 to 93:
  \<^verbatim>\<open>unshareFlags := uintptr(forkexec.UnshareFlags); if *netShare { unshareFlags ^= syscall.CLONE_NEWNET }\<close>.
  The constant \<open>forkexec.UnshareFlags\<close> is declared in the sandbox library, not in this
  file; it is the first argument here.
\<close>

definition unshareFlags :: "uintptr \<Rightarrow> bool \<Rightarrow> uintptr" where
  "unshareFlags lib_flags share = (if share then lib_flags XOR CLONE_NEWNET else lib_flags)"

text \<open>
  Modelled from the spec: the value of \<open>forkexec.UnshareFlags\<close>, which the source imports
  from the sandbox library. The spec lists the namespaces of the template as mount, pid,
  uts, ipc and, unless sharing is switched on, network.
\<close>

definition spec_UnshareFlags :: uintptr where
  "spec_UnshareFlags =
     CLONE_NEWNS OR CLONE_NEWPID OR CLONE_NEWUTS OR CLONE_NEWIPC OR CLONE_NEWNET"

text \<open>
  What \<open>main\<close> takes from outside this file: the three library calls that can fail
  (\<open>ioutil.TempDir\<close>, \<open>mb.Build\<close>, \<open>FilterByEnv\<close>) as functions into a Go error or a
  value, and the library constant \<open>forkexec.UnshareFlags\<close>. The type \<open>'m\<close> stands for
  the built mount parameters.
\<close>

datatype go_error = Err string

record 'm extern =
  TempDir :: "string \<Rightarrow> string \<Rightarrow> go_error + string"
  Build :: "Mount list \<Rightarrow> bool \<Rightarrow> go_error + 'm"
  FilterByEnv :: "CgroupBuilder \<Rightarrow> go_error + CgroupBuilder"
  UnshareFlags :: uintptr

text \<open>The \<open>container.Builder\<close> literal of lines 95 to 101.\<close>

record 'm Builder =
  Root :: string
  Mounts :: 'm
  CredGenerator :: credGen
  Stderr :: bool
  CloneFlags :: uintptr

text \<open>
  The steps of \<open>main\<close> that act on the world, in program order. \<open>Panic\<close> is Go's
  \<open>panic(err)\<close>: in \<open>main\<close>, with no \<open>recover\<close> anywhere, it ends the process.
  Logging through \<open>printLog\<close> has no effect on control flow and is left out.
\<close>

datatype action =
    NewFileMemoryStore
  | MkdirAll string
  | NewFileLocalStore string
  | CallTempDir
  | CallBuild
  | CallFilterByEnv
  | NewPools
  | StartWorkers int
  | RunHTTP string
  | Panic go_error

text \<open>
  \<open>main\<close> returns the actions it performed and, when it got as far as serving, the
  container builder and cgroup builder the pools were created from. The result of
  \<open>os.MkdirAll\<close> is discarded by the source, so it is not an input here.
\<close>

definition store_actions :: "flags \<Rightarrow> action list" where
  "store_actions fl =
     (if dir fl = [] then [NewFileMemoryStore] else [MkdirAll (dir fl), NewFileLocalStore (dir fl)])"

definition main :: "flags \<Rightarrow> 'm extern \<Rightarrow> action list \<times> ('m Builder \<times> CgroupBuilder) option" where
  "main fl ex =
     (case TempDir ex [] ''dm'' of
        Inl err \<Rightarrow> (store_actions fl @ [CallTempDir, Panic err], None)
      | Inr root \<Rightarrow>
          (case Build ex (mb (tmpFsParam fl)) True of
             Inl err \<Rightarrow> (store_actions fl @ [CallTempDir, CallBuild, Panic err], None)
           | Inr m \<Rightarrow>
               (let b = \<lparr>Root = root, Mounts = m, CredGenerator = newCredGen, Stderr = True,
                         CloneFlags = unshareFlags (UnshareFlags ex) (netShare fl)\<rparr>
                in case FilterByEnv ex cgb_declared of
                     Inl err \<Rightarrow>
                       (store_actions fl @ [CallTempDir, CallBuild, CallFilterByEnv, Panic err],
                        None)
                   | Inr cgb \<Rightarrow>
                       (store_actions fl @
                          [CallTempDir, CallBuild, CallFilterByEnv, NewPools,
                           StartWorkers (parallism fl), RunHTTP (addr fl)],
                        Some (b, cgb)))))"

definition is_Panic :: "action \<Rightarrow> bool" where
  "is_Panic a = (case a of Panic _ \<Rightarrow> True | _ \<Rightarrow> False)"

definition is_service :: "action \<Rightarrow> bool" where
  "is_service a = (case a of NewPools \<Rightarrow> True | StartWorkers _ \<Rightarrow> True | RunHTTP _ \<Rightarrow> True | _ \<Rightarrow> False)"

section \<open>The worker dispatcher and the pools\<close>

text \<open>
  Modelled from the spec: the Worker Dispatcher (\<open>startWorkers\<close> and the worker loop)
  and the checkout and release of the Environment Pool and the Cgroup Pool. \<open>main\<close>
  only creates the pools and calls \<open>startWorkers()\<close>; their code is in other files.
  The spec's protocol for one request: wait for a concurrency slot (at most as many as
  the configured parallelism are in use), check out one Environment, check out one
  CgroupInstance, delegate the run, release both resources and the slot, return the
  result. A failed construction of an Environment or a CgroupInstance is an acquisition
  error reported to the request, and the slot is still released.
\<close>

datatype outcome = Succeeded | TimedOut | Crashed | Errored

text \<open>
  Modelled from the spec: what the caller gets back, the outcome of the execution or
  the acquisition error of a pool that could not construct an instance.
\<close>

datatype result = Executed outcome | AcquisitionError

text \<open>
  Modelled from the spec: where a request stands in the protocol. The three
  \<open>Release...\<close> points say what is released next; \<open>Respond\<close> is the point after the
  last release and before the result is handed to the caller.
\<close>

datatype pc =
    Waiting
  | HasSlot
  | HasEnv
  | Running
  | ReleaseCgroup result
  | ReleaseEnv result
  | ReleaseSlot result
  | Respond result
  | Returned result

text \<open>
  Modelled from the spec: a request in flight, with what it currently holds: the
  concurrency slot, a checked-out Environment, a checked-out CgroupInstance.
\<close>

record request =
  at :: pc
  slot :: bool
  env :: bool
  cgroup :: bool

text \<open>
  Modelled from the spec: the events of a run with several requests in flight. Each
  names the request (its index) that takes its next step; the execution collaborator
  decides the outcome of \<open>Finish\<close>, the pools decide between \<open>...Ready\<close> and
  \<open>...Failed\<close>.
\<close>

datatype event =
    Acquire nat
  | EnvReady nat
  | EnvFailed nat
  | CgroupReady nat
  | CgroupFailed nat
  | Finish nat outcome
  | Release nat
  | Return nat

text \<open>Modelled from the spec: the request an event belongs to.\<close>

fun target :: "event \<Rightarrow> nat" where
  "target (Acquire i) = i"
| "target (EnvReady i) = i"
| "target (EnvFailed i) = i"
| "target (CgroupReady i) = i"
| "target (CgroupFailed i) = i"
| "target (Finish i out) = i"
| "target (Release i) = i"
| "target (Return i) = i"

text \<open>
  Modelled from the spec: the step of one request. An event that does not fit the
  point the request is at changes nothing.
\<close>

fun advance :: "event \<Rightarrow> request \<Rightarrow> request" where
  "advance (Acquire i) r = (if at r = Waiting then r\<lparr>at := HasSlot, slot := True\<rparr> else r)"
| "advance (EnvReady i) r = (if at r = HasSlot then r\<lparr>at := HasEnv, env := True\<rparr> else r)"
| "advance (EnvFailed i) r =
     (if at r = HasSlot then r\<lparr>at := ReleaseSlot AcquisitionError\<rparr> else r)"
| "advance (CgroupReady i) r =
     (if at r = HasEnv then r\<lparr>at := Running, cgroup := True\<rparr> else r)"
| "advance (CgroupFailed i) r =
     (if at r = HasEnv then r\<lparr>at := ReleaseEnv AcquisitionError\<rparr> else r)"
| "advance (Finish i out) r =
     (if at r = Running then r\<lparr>at := ReleaseCgroup (Executed out)\<rparr> else r)"
| "advance (Release i) r =
     (case at r of
        ReleaseCgroup res \<Rightarrow> r\<lparr>at := ReleaseEnv res, cgroup := False\<rparr>
      | ReleaseEnv res \<Rightarrow> r\<lparr>at := ReleaseSlot res, env := False\<rparr>
      | ReleaseSlot res \<Rightarrow> r\<lparr>at := Respond res, slot := False\<rparr>
      | _ \<Rightarrow> r)"
| "advance (Return i) r = (case at r of Respond res \<Rightarrow> r\<lparr>at := Returned res\<rparr> | _ \<Rightarrow> r)"

text \<open>Modelled from the spec: the number of concurrency slots taken.\<close>

definition slots_in_use :: "request list \<Rightarrow> nat" where
  "slots_in_use rs = length (filter slot rs)"

text \<open>
  Modelled from the spec: the number of Environments checked out of the Environment
  Pool.
\<close>

definition checked_out :: "request list \<Rightarrow> nat" where
  "checked_out rs = length (filter env rs)"

text \<open>
  Modelled from the spec: a request that asks for a slot while all \<open>P\<close> are in use
  stays blocked. Checkout from a pool is not blocked here: a pool that also blocks has
  fewer runs, not more.
\<close>

fun blocked :: "nat \<Rightarrow> event \<Rightarrow> request list \<Rightarrow> bool" where
  "blocked P (Acquire i) rs = (P \<le> slots_in_use rs)"
| "blocked P e rs = False"

text \<open>
  Modelled from the spec: one event of the run with parallelism \<open>P\<close>. An event
  for a request that does not exist, or one that is blocked, leaves the state as it is.
\<close>

definition step :: "nat \<Rightarrow> event \<Rightarrow> request list \<Rightarrow> request list" where
  "step P e rs =
     (if target e < length rs \<and> \<not> blocked P e rs
      then rs[target e := advance e (rs ! target e)] else rs)"

text \<open>Modelled from the spec: a run is any sequence of events, in any interleaving.\<close>

fun run :: "nat \<Rightarrow> event list \<Rightarrow> request list \<Rightarrow> request list" where
  "run P [] rs = rs"
| "run P (e # es) rs = run P es (step P e rs)"

text \<open>Modelled from the spec: \<open>N\<close> requests submitted, none of them served yet.\<close>

definition submitted :: "nat \<Rightarrow> request list" where
  "submitted N = replicate N \<lparr>at = Waiting, slot = False, env = False, cgroup = False\<rparr>"

text \<open>
  Modelled from the spec: what a request holds at each point of the protocol (slot,
  Environment, CgroupInstance).
\<close>

fun holds :: "pc \<Rightarrow> bool \<times> bool \<times> bool" where
  "holds Waiting = (False, False, False)"
| "holds HasSlot = (True, False, False)"
| "holds HasEnv = (True, True, False)"
| "holds Running = (True, True, True)"
| "holds (ReleaseCgroup res) = (True, True, True)"
| "holds (ReleaseEnv res) = (True, True, False)"
| "holds (ReleaseSlot res) = (True, False, False)"
| "holds (Respond res) = (False, False, False)"
| "holds (Returned res) = (False, False, False)"

text \<open>
  Modelled from the spec: a request whose three marks agree with the point it is at.
\<close>

definition consistent :: "request \<Rightarrow> bool" where
  "consistent r = ((slot r, env r, cgroup r) = holds (at r))"

section \<open>Example hosts\<close>

text \<open>
  Instances of what \<open>main\<close> takes from outside. On \<open>host_ok\<close> every library call
  succeeds and nothing is missing.
\<close>

definition host_ok :: "Mount list extern" where
  "host_ok =
     \<lparr>TempDir = (\<lambda>d pat. Inr ''/tmp/dm123''), Build = (\<lambda>ms bind. Inr ms),
      FilterByEnv = (\<lambda>cg. Inr cg), UnshareFlags = spec_UnshareFlags\<rparr>"

text \<open>A host on which the temporary directory for the container root cannot be created.\<close>

definition host_no_root :: "Mount list extern" where
  "host_no_root =
     \<lparr>TempDir = (\<lambda>d pat. Inl (Err ''mkdir /tmp/dm123: permission denied'')),
      Build = (\<lambda>ms bind. Inr ms),
      FilterByEnv = (\<lambda>cg. Inr cg), UnshareFlags = spec_UnshareFlags\<rparr>"

text \<open>A host on which the list of cgroup controllers cannot be read.\<close>

definition host_cgroups_unreadable :: "Mount list extern" where
  "host_cgroups_unreadable =
     \<lparr>TempDir = (\<lambda>d pat. Inr ''/tmp/dm123''), Build = (\<lambda>ms bind. Inr ms),
      FilterByEnv = (\<lambda>cg. Inl (Err ''open /proc/cgroups: permission denied'')),
      UnshareFlags = spec_UnshareFlags\<rparr>"

text \<open>
  A host without \<open>/var/lib/ghc\<close> and without any of the three cgroup controllers. The
  mount builder, asked to skip sources that do not exist (the argument \<open>true\<close> of
  \<open>mb.Build\<close>), leaves that bind mount out and reports no error; \<open>FilterByEnv\<close> filters
  the declared controllers by those the host lists and reports no error.
\<close>

definition host_missing :: "Mount list extern" where
  "host_missing =
     \<lparr>TempDir = (\<lambda>d pat. Inr ''/tmp/dm123''),
      Build = (\<lambda>ms skip.
        if skip then Inr (filter (\<lambda>m. m \<noteq> WithBind ''/var/lib/ghc'' ''var/lib/ghc'' True) ms)
        else Inl (Err ''stat /var/lib/ghc: no such file or directory'')),
      FilterByEnv = (\<lambda>cg. Inr (cg\<lparr>CPUAcct := False, Memory := False, Pids := False\<rparr>)),
      UnshareFlags = spec_UnshareFlags\<rparr>"

text \<open>
  A host whose kernel offers the cpuacct and memory controllers but not pids:
  \<open>FilterByEnv\<close> returns the declared builder without the pids controller.
\<close>

definition host_no_pids :: "Mount list extern" where
  "host_no_pids =
     \<lparr>TempDir = (\<lambda>d pat. Inr ''/tmp/dm123''), Build = (\<lambda>ms bind. Inr ms),
      FilterByEnv = (\<lambda>cg. Inr (cg\<lparr>Pids := False\<rparr>)), UnshareFlags = spec_UnshareFlags\<rparr>"

section \<open>Properties of the credential generator\<close>

lemma Get_fst:
  "fst (Get c) = \<lparr>Uid = cur c + 1, Gid = cur c + 1, Groups = [], NoSetGroups = False\<rparr>"
  by (simp add: Get_def Let_def)

lemma Get_snd: "snd (Get c) = c\<lparr>cur := cur c + 1\<rparr>"
  by (simp add: Get_def Let_def)

lemma Get_calls_Suc_fst:
  "fst (Get_calls (Suc m) c) = fst (Get c) # fst (Get_calls m (snd (Get c)))"
  by (simp add: prod.case_eq_if)

lemma Get_calls_Suc_snd:
  "snd (Get_calls (Suc m) c) = snd (Get_calls m (snd (Get c)))"
  by (simp add: prod.case_eq_if)

lemma Get_calls_length: "length (fst (Get_calls m c)) = m"
  by (induction m arbitrary: c) (simp_all add: Get_calls_Suc_fst del: Get_calls.simps(2))

lemma Get_calls_cur: "cur (snd (Get_calls m c)) = cur c + of_nat m"
  by (induction m arbitrary: c) (simp_all add: Get_calls_Suc_snd Get_snd del: Get_calls.simps(2))

text \<open>The call after \<open>k\<close> earlier ones returns the counter's start plus \<open>k + 1\<close>, as a \<open>uint32\<close>.\<close>

lemma Get_nth_eq:
  "Get_nth k c =
     \<lparr>Uid = cur c + of_nat k + 1, Gid = cur c + of_nat k + 1, Groups = [], NoSetGroups = False\<rparr>"
  by (simp add: Get_nth_def Get_fst Get_calls_cur)

lemma Get_calls_nth: "k < m \<Longrightarrow> fst (Get_calls m c) ! k = Get_nth k c"
proof (induction m arbitrary: c k)
  case 0
  then show ?case by simp
next
  case (Suc m)
  show ?case
  proof (cases k)
    case 0
    then show ?thesis
      by (simp add: Get_calls_Suc_fst Get_fst Get_nth_eq del: Get_calls.simps(2))
  next
    case (Suc j)
    with Suc.prems have "j < m" by simp
    from Suc.IH [OF this, of "snd (Get c)"] Suc show ?thesis
      by (simp add: Get_calls_Suc_fst Get_snd Get_nth_eq add.commute add.left_commute
          del: Get_calls.simps(2))
  qed
qed

lemma unat_Uid_Get_nth: "unat (Uid (Get_nth k c)) = (unat (cur c) + k + 1) mod 2 ^ 32"
  by (simp add: Get_nth_eq unat_word_ariths unat_of_nat mod_simps)

lemma Gid_Get_nth: "Gid (Get_nth k c) = Uid (Get_nth k c)"
  by (simp add: Get_nth_eq)

text \<open>Two calls return the same uid exactly when their positions agree modulo \<open>2^32\<close>.\<close>

lemma Uid_Get_nth_eq_iff:
  "Uid (Get_nth j c) = Uid (Get_nth k c) \<longleftrightarrow> j mod 2 ^ 32 = k mod 2 ^ 32"
  by (simp add: Get_nth_eq word_of_nat_eq_iff take_bit_eq_mod)

lemma Uid_Get_nth_less:
  assumes "j < k" "unat (cur c) + k + 1 < 2 ^ 32"
  shows "Uid (Get_nth j c) < Uid (Get_nth k c)"
  using assms by (simp add: word_less_nat_alt unat_Uid_Get_nth)

lemma Uid_Get_nth_near:
  assumes "j < k" "k - j < 2 ^ 32"
  shows "Uid (Get_nth j c) \<noteq> Uid (Get_nth k c)"
proof
  assume "Uid (Get_nth j c) = Uid (Get_nth k c)"
  then have "j mod 2 ^ 32 = k mod 2 ^ 32" by (simp add: Uid_Get_nth_eq_iff)
  then have "(2 ^ 32 :: nat) dvd k - j"
    using assms(1) by (metis less_imp_le_nat mod_eq_dvd_iff_nat)
  with assms show False
    by (auto dest: dvd_imp_le)
qed

lemma first_three_uids: "map Uid (fst (Get_calls 3 newCredGen)) = [10001, 10002, 10003]"
  by (simp add: newCredGen_def Get_def Let_def numeral_3_eq_3)

text \<open>
  Claim C3. The credentials of \<open>M\<close> calls made one after the other are strictly
  increasing in uid and in gid, hence pairwise distinct, as long as the counter does not
  wrap: the last value handed out, the counter's start plus \<open>M\<close>, still fits in 32 bits.
\<close>

theorem sequential_Get_strictly_increasing:
  assumes "unat (cur c) + M < 2 ^ 32"
  shows "sorted_wrt (\<lambda>a b. Uid a < Uid b \<and> Gid a < Gid b) (fst (Get_calls M c)) \<and>
         distinct (map (\<lambda>x. (Uid x, Gid x)) (fst (Get_calls M c)))"
proof -
  let ?xs = "fst (Get_calls M c)"
  have less: "Uid (?xs ! i) < Uid (?xs ! j)" if "i < j" "j < M" for i j
  proof -
    from that assms have "unat (cur c) + j + 1 < 2 ^ 32" by simp
    with that show ?thesis by (simp add: Get_calls_nth Uid_Get_nth_less)
  qed
  have gid: "Gid (?xs ! i) = Uid (?xs ! i)" if "i < M" for i
    using that by (simp add: Get_calls_nth Gid_Get_nth)
  have "sorted_wrt (\<lambda>a b. Uid a < Uid b \<and> Gid a < Gid b) ?xs"
    using less gid by (simp add: sorted_wrt_iff_nth_less Get_calls_length)
  moreover have "distinct (map (\<lambda>x. (Uid x, Gid x)) ?xs)"
  proof -
    have "Uid (?xs ! i) \<noteq> Uid (?xs ! j)" if "i < M" "j < M" "i \<noteq> j" for i j
      using that less [of i j] less [of j i] by (cases "i < j") auto
    then show ?thesis
      by (simp add: distinct_conv_nth Get_calls_length)
  qed
  ultimately show ?thesis by simp
qed

theorem sequential_Get_strictly_increasing_witness:
  "unat (cur newCredGen) + 3 < 2 ^ 32 \<and>
   sorted_wrt (\<lambda>a b. Uid a < Uid b \<and> Gid a < Gid b) (fst (Get_calls 3 newCredGen)) \<and>
   distinct (map (\<lambda>x. (Uid x, Gid x)) (fst (Get_calls 3 newCredGen)))"
proof -
  have h: "unat (cur newCredGen) + 3 < 2 ^ 32" by (simp add: newCredGen_def)
  show ?thesis using h sequential_Get_strictly_increasing [OF h] by simp
qed

text \<open>
  The window of \<open>2^32\<close> calls cannot be widened: of \<open>2^32 + 1\<close> calls on a fresh
  generator, the first and the last return the same uid.
\<close>

lemma Get_calls_past_range_repeat:
  "\<not> distinct (map Uid (fst (Get_calls (2 ^ 32 + 1) newCredGen)))"
proof -
  let ?xs = "map Uid (fst (Get_calls (2 ^ 32 + 1) newCredGen))"
  have "?xs ! 0 = ?xs ! (2 ^ 32)"
    by (simp add: Get_calls_length Get_calls_nth Get_nth_eq)
  moreover have "(0::nat) < length ?xs" "(2 ^ 32 :: nat) < length ?xs" "(0::nat) \<noteq> 2 ^ 32"
    by (simp_all add: Get_calls_length)
  ultimately show ?thesis
    using nth_eq_iff_index_eq by blast
qed





subsection \<open>Calls from several workers\<close>





text \<open>
  Two workers whose calls overlap: worker 0 adds, worker 1 adds and returns, then
  worker 0 returns. They get 10001 and 10002, returned in the other order.
\<close>

lemma overlapping_calls:
  "map Uid (returned (interleave [0, 1, 1, 0] (callers_start 2 newCredGen))) = [10002, 10001]"
  by (simp add: callers_start_def caller_step_def newCredGen_def Get_def Let_def numeral_2_eq_2)



text \<open>
  Claim C6, as stated, fails in its second half: the eighth execution served by a fresh
  generator and the one \<open>2^32\<close> allocations later are distinct executions with the same
  uid and the same gid.
\<close>

theorem distinct_executions_same_credential:
  "(7::nat) \<noteq> 7 + 2 ^ 32 \<and>
   Uid (Get_nth 7 newCredGen) = Uid (Get_nth (7 + 2 ^ 32) newCredGen) \<and>
   Gid (Get_nth 7 newCredGen) = Gid (Get_nth (7 + 2 ^ 32) newCredGen)"
  by (simp add: Gid_Get_nth Uid_Get_nth_eq_iff)

text \<open>
  Claim C6, amended. Every credential returned by \<open>Get\<close> has its uid equal to its gid;
  consequently the credentials of two distinct executions whose allocations are fewer
  than \<open>2^32\<close> calls apart differ in both uid and gid.
\<close>

theorem uid_eq_gid_and_near_calls_differ:
  "Uid (fst (Get c)) = Gid (fst (Get c)) \<and>
   (j < k \<and> k - j < 2 ^ 32 \<longrightarrow>
      Uid (Get_nth j c) \<noteq> Uid (Get_nth k c) \<and> Gid (Get_nth j c) \<noteq> Gid (Get_nth k c))"
  by (simp add: Get_fst Gid_Get_nth Uid_Get_nth_near)

theorem uid_eq_gid_and_near_calls_differ_witness:
  "(0::nat) < 1 \<and> (1::nat) - 0 < 2 ^ 32 \<and>
   Uid (Get_nth 0 newCredGen) \<noteq> Uid (Get_nth 1 newCredGen) \<and>
   Gid (Get_nth 0 newCredGen) \<noteq> Gid (Get_nth 1 newCredGen)"
  using uid_eq_gid_and_near_calls_differ [of newCredGen 0 1] by simp

text \<open>
  Claim C9. The counter is a 32-bit unsigned integer and \<open>Get\<close> returns its successor
  modulo \<open>2^32\<close>, as uid and as gid, and stores it. From the maximum the next credential
  is uid 0 and gid 0; on a fresh generator the calls from number \<open>2^32 - 10000\<close> on hand
  out 0, 1, 2, ...; the call \<open>2^32\<close> calls after any call repeats its credential; and
  every call returns a credential (\<open>Get\<close> has no error result): \<open>M\<close> calls yield \<open>M\<close>
  credentials for every \<open>M\<close>.
\<close>

theorem credGen_counter_wraps:
  "unat (Uid (fst (Get c))) = (unat (cur c) + 1) mod 2 ^ 32 \<and>
   Gid (fst (Get c)) = Uid (fst (Get c)) \<and>
   cur (snd (Get c)) = Uid (fst (Get c)) \<and>
   fst (Get \<lparr>cur = 0xFFFFFFFF\<rparr>) = \<lparr>Uid = 0, Gid = 0, Groups = [], NoSetGroups = False\<rparr> \<and>
   unat (Uid (Get_nth (2 ^ 32 - 10001 + j) newCredGen)) = j mod 2 ^ 32 \<and>
   Get_nth (k + 2 ^ 32) c = Get_nth k c \<and>
   length (fst (Get_calls M c)) = M"
proof -
  have "unat (Uid (Get_nth (2 ^ 32 - 10001 + j) newCredGen)) = j mod 2 ^ 32"
  proof -
    have "unat (Uid (Get_nth (2 ^ 32 - 10001 + j) newCredGen)) = (2 ^ 32 + j) mod 2 ^ 32"
      by (simp add: unat_Uid_Get_nth newCredGen_def)
    then show ?thesis by simp
  qed
  moreover have "Get_nth (k + 2 ^ 32) c = Get_nth k c"
    by (simp add: Get_nth_eq)
  ultimately show ?thesis
    by (simp add: Get_fst Get_snd Get_calls_length unat_word_ariths)
qed

text \<open>
  Claim C10, as stated, fails in its second half: the seed is 10000, and call number
  \<open>2^32\<close> on a fresh generator (the one at index \<open>2^32 - 1\<close>) returns uid 10000.
\<close>

theorem seed_returned_after_wrap:
  "cur newCredGen = 10000 \<and> Uid (fst (Get_calls (2 ^ 32) newCredGen) ! (2 ^ 32 - 1)) = 10000"
  by (simp add: Get_calls_nth Get_nth_eq newCredGen_def)

text \<open>
  Claim C10, amended. The first call on a fresh generator returns uid = gid = 10001;
  a call never returns the value the counter held before it, because the counter is
  incremented before it is read; and none of the first \<open>2^32 - 1\<close> calls returns the seed
  10000.
\<close>

theorem first_Get_and_seed_not_before_wrap:
  "fst (Get newCredGen) = \<lparr>Uid = 10001, Gid = 10001, Groups = [], NoSetGroups = False\<rparr> \<and>
   Uid (fst (Get c)) \<noteq> cur c \<and>
   (k < 2 ^ 32 - 1 \<longrightarrow> Uid (Get_nth k newCredGen) \<noteq> 10000)"
proof -
  have "Uid (Get_nth k newCredGen) \<noteq> 10000" if k: "k < 2 ^ 32 - 1"
  proof
    assume "Uid (Get_nth k newCredGen) = 10000"
    moreover have "Uid (Get_nth (2 ^ 32 - 1) newCredGen) = 10000"
      by (simp add: Get_nth_eq newCredGen_def)
    ultimately have "Uid (Get_nth k newCredGen) = Uid (Get_nth (2 ^ 32 - 1) newCredGen)"
      by simp
    then have "k mod 2 ^ 32 = (2 ^ 32 - 1) mod 2 ^ 32"
      by (rule Uid_Get_nth_eq_iff [THEN iffD1])
    with k show False by simp
  qed
  then show ?thesis
    by (simp add: Get_fst newCredGen_def)
qed

theorem first_Get_and_seed_not_before_wrap_witness:
  "(5::nat) < 2 ^ 32 - 1 \<and> Uid (Get_nth 5 newCredGen) \<noteq> 10000"
  using first_Get_and_seed_not_before_wrap [of newCredGen 5] by simp

section \<open>Properties of start-up\<close>

lemma store_actions_plain:
  "filter is_Panic (store_actions fl) = []" "filter is_service (store_actions fl) = []"
  by (simp_all add: store_actions_def is_Panic_def is_service_def)

lemma main_CloneFlags:
  "snd (main fl ex) = Some (b, cgb) \<Longrightarrow>
     CloneFlags b = unshareFlags (UnshareFlags ex) (netShare fl)"
  by (auto simp: main_def Let_def split: sum.splits)

lemma main_host_ok_shared_net:
  "main (default_flags\<lparr>netShare := True\<rparr>) host_ok =
     ([NewFileMemoryStore, CallTempDir, CallBuild, CallFilterByEnv, NewPools, StartWorkers 4,
       RunHTTP '':5050''],
      Some (\<lparr>Root = ''/tmp/dm123'', Mounts = mb ''size=8m,nr_inodes=4k'',
              CredGenerator = newCredGen, Stderr = True,
              CloneFlags = spec_UnshareFlags XOR CLONE_NEWNET\<rparr>,
            cgb_declared))"
  by (simp add: main_def host_ok_def default_flags_def store_actions_def unshareFlags_def)

lemma main_host_ok_default:
  "main default_flags host_ok =
     ([NewFileMemoryStore, CallTempDir, CallBuild, CallFilterByEnv, NewPools, StartWorkers 4,
       RunHTTP '':5050''],
      Some (\<lparr>Root = ''/tmp/dm123'', Mounts = mb ''size=8m,nr_inodes=4k'',
              CredGenerator = newCredGen, Stderr = True, CloneFlags = spec_UnshareFlags\<rparr>,
            cgb_declared))"
  by (simp add: main_def host_ok_def default_flags_def store_actions_def unshareFlags_def)

lemma main_host_missing:
  "main default_flags host_missing =
     ([NewFileMemoryStore, CallTempDir, CallBuild, CallFilterByEnv, NewPools, StartWorkers 4,
       RunHTTP '':5050''],
      Some (\<lparr>Root = ''/tmp/dm123'',
              Mounts =
                [WithBind ''/bin'' ''bin'' True,
                 WithBind ''/lib'' ''lib'' True,
                 WithBind ''/lib64'' ''lib64'' True,
                 WithBind ''/usr'' ''usr'' True,
                 WithProc,
                 WithBind ''/etc/alternatives'' ''etc/alternatives'' True,
                 WithBind ''/etc/fpc.cfg'' ''etc/fpc.cfg'' True,
                 WithBind ''/dev/null'' ''dev/null'' False,
                 WithTmpfs ''w'' ''size=8m,nr_inodes=4k'',
                 WithTmpfs ''tmp'' ''size=8m,nr_inodes=4k''],
              CredGenerator = newCredGen, Stderr = True, CloneFlags = spec_UnshareFlags\<rparr>,
            \<lparr>Prefix = ''executorserver'', CPUAcct = False, Memory = False, Pids = False\<rparr>))"
  by (simp add: main_def host_missing_def default_flags_def store_actions_def unshareFlags_def
      mb_def cgb_declared_def)

text \<open>
  Claim C7, as stated, fails for two of the conditions it names. On a host where a
  bind-mount source that \<open>main\<close> declares is missing and none of the declared cgroup
  controllers is offered, the library calls return no error, \<open>main\<close> does not panic,
  and the pools, the workers and the HTTP server are started: with that bind mount left
  out and with a cgroup builder that has no controller.
\<close>

theorem main_serves_on_host_missing:
  "WithBind ''/var/lib/ghc'' ''var/lib/ghc'' True \<in> set (mb (tmpFsParam default_flags)) \<and>
   CPUAcct cgb_declared \<and> Memory cgb_declared \<and> Pids cgb_declared \<and>
   filter is_Panic (fst (main default_flags host_missing)) = [] \<and>
   last (fst (main default_flags host_missing)) = RunHTTP '':5050'' \<and>
   (case snd (main default_flags host_missing) of
      None \<Rightarrow> False
    | Some (b, cgb) \<Rightarrow>
        WithBind ''/var/lib/ghc'' ''var/lib/ghc'' True \<notin> set (Mounts b) \<and>
        \<not> CPUAcct cgb \<and> \<not> Memory cgb \<and> \<not> Pids cgb)"
  unfolding main_host_missing
  by (simp add: mb_def default_flags_def cgb_declared_def is_Panic_def)

text \<open>
  Claim C7, amended. An error returned by one of the three fallible start-up calls
  (creating the root directory, building the mounts, filtering the cgroup controllers)
  is raised exactly once and ends the process at once: \<open>main\<close> panics with the error of
  the first call that failed, right after that call, the panic is its last action, and
  neither the pools nor the workers nor the HTTP server are started. When none of the
  three calls returns an error there is no panic and the service is started: \<open>main\<close>
  makes no check of its own.
\<close>

theorem startup_fails_exactly_on_returned_error:
  "(TempDir ex [] ''dm'' = Inl e \<or> Build ex (mb (tmpFsParam fl)) True = Inl e \<or>
    FilterByEnv ex cgb_declared = Inl e \<longrightarrow>
      snd (main fl ex) = None \<and>
      length (filter is_Panic (fst (main fl ex))) = 1 \<and>
      is_Panic (last (fst (main fl ex))) \<and>
      filter is_service (fst (main fl ex)) = [] \<and>
      (\<exists>e'. last (fst (main fl ex)) = Panic e' \<and>
         (TempDir ex [] ''dm'' = Inl e' \<or> Build ex (mb (tmpFsParam fl)) True = Inl e' \<or>
          FilterByEnv ex cgb_declared = Inl e'))) \<and>
   (TempDir ex [] ''dm'' = Inr root \<and> Build ex (mb (tmpFsParam fl)) True = Inr m \<and>
    FilterByEnv ex cgb_declared = Inr cgb \<longrightarrow>
      main fl ex =
        (store_actions fl @
           [CallTempDir, CallBuild, CallFilterByEnv, NewPools, StartWorkers (parallism fl),
            RunHTTP (addr fl)],
         Some (\<lparr>Root = root, Mounts = m, CredGenerator = newCredGen, Stderr = True,
                 CloneFlags = unshareFlags (UnshareFlags ex) (netShare fl)\<rparr>, cgb)) \<and>
      filter is_Panic (fst (main fl ex)) = [])"
  by (auto simp: main_def Let_def store_actions_plain is_Panic_def is_service_def
      split: sum.splits)

theorem startup_fails_exactly_on_returned_error_witness:
  "TempDir host_no_root [] ''dm'' = Inl (Err ''mkdir /tmp/dm123: permission denied'') \<and>
   main default_flags host_no_root =
     ([NewFileMemoryStore, CallTempDir, Panic (Err ''mkdir /tmp/dm123: permission denied'')],
      None) \<and>
   TempDir host_ok [] ''dm'' = Inr ''/tmp/dm123'' \<and>
   Build host_ok (mb (tmpFsParam default_flags)) True = Inr (mb (tmpFsParam default_flags)) \<and>
   FilterByEnv host_ok cgb_declared = Inr cgb_declared \<and>
   snd (main default_flags host_ok) =
     Some (\<lparr>Root = ''/tmp/dm123'', Mounts = mb (tmpFsParam default_flags),
             CredGenerator = newCredGen, Stderr = True,
             CloneFlags = unshareFlags (UnshareFlags host_ok) (netShare default_flags)\<rparr>,
           cgb_declared)"
  using
    startup_fails_exactly_on_returned_error
      [of host_no_root "Err ''mkdir /tmp/dm123: permission denied''" default_flags]
    startup_fails_exactly_on_returned_error
      [of host_ok _ default_flags "''/tmp/dm123''" "mb (tmpFsParam default_flags)" cgb_declared]
  by (simp add: main_def host_no_root_def host_ok_def store_actions_def default_flags_def)

subsection \<open>The cgroup controllers\<close>

text \<open>
  Claim C4, as stated, fails. On a host that lacks the pids controller, which \<open>main\<close>
  declares, \<open>FilterByEnv\<close> returns the declared builder without that controller and no
  error; \<open>main\<close> does not panic and creates the cgroup pool from the filtered builder.
\<close>

theorem main_serves_without_pids:
  "Pids cgb_declared \<and>
   FilterByEnv host_no_pids cgb_declared =
     Inr \<lparr>Prefix = ''executorserver'', CPUAcct = True, Memory = True, Pids = False\<rparr> \<and>
   filter is_Panic (fst (main default_flags host_no_pids)) = [] \<and>
   last (fst (main default_flags host_no_pids)) = RunHTTP '':5050'' \<and>
   map_option snd (snd (main default_flags host_no_pids)) =
     Some \<lparr>Prefix = ''executorserver'', CPUAcct = True, Memory = True, Pids = False\<rparr>"
  by (simp add: main_def host_no_pids_def default_flags_def store_actions_def cgb_declared_def
      is_Panic_def)

text \<open>
  Claim C4, amended. Once the root directory and the mounts are built, construction of
  the cgroup template fails, with a panic of \<open>main\<close> right after the call, exactly when
  \<open>FilterByEnv\<close> returns an error. When \<open>FilterByEnv\<close> returns a builder, \<open>main\<close> takes
  it as it is for the cgroup pool and starts the service, whichever of the declared
  controllers the filter has left out.
\<close>

theorem cgroup_filter_result_decides:
  assumes "TempDir ex [] ''dm'' = Inr root" and "Build ex (mb (tmpFsParam fl)) True = Inr m"
  shows "(FilterByEnv ex cgb_declared = Inl e \<longrightarrow>
            main fl ex =
              (store_actions fl @ [CallTempDir, CallBuild, CallFilterByEnv, Panic e], None)) \<and>
         (FilterByEnv ex cgb_declared = Inr cgb \<longrightarrow>
            map_option snd (snd (main fl ex)) = Some cgb \<and>
            filter is_Panic (fst (main fl ex)) = [] \<and>
            last (fst (main fl ex)) = RunHTTP (addr fl))"
  using assms
  by (auto simp: main_def Let_def store_actions_plain is_Panic_def split: sum.splits)

theorem cgroup_filter_result_decides_witness:
  "TempDir host_cgroups_unreadable [] ''dm'' = Inr ''/tmp/dm123'' \<and>
   Build host_cgroups_unreadable (mb (tmpFsParam default_flags)) True =
     Inr (mb (tmpFsParam default_flags)) \<and>
   FilterByEnv host_cgroups_unreadable cgb_declared =
     Inl (Err ''open /proc/cgroups: permission denied'') \<and>
   main default_flags host_cgroups_unreadable =
     ([NewFileMemoryStore, CallTempDir, CallBuild, CallFilterByEnv,
       Panic (Err ''open /proc/cgroups: permission denied'')], None) \<and>
   FilterByEnv host_ok cgb_declared = Inr cgb_declared \<and>
   map_option snd (snd (main default_flags host_ok)) = Some cgb_declared"
proof -
  have t1: "TempDir host_cgroups_unreadable [] ''dm'' = Inr ''/tmp/dm123''"
    and b1: "Build host_cgroups_unreadable (mb (tmpFsParam default_flags)) True =
      Inr (mb (tmpFsParam default_flags))"
    by (simp_all add: host_cgroups_unreadable_def)
  have t2: "TempDir host_ok [] ''dm'' = Inr ''/tmp/dm123''"
    and b2: "Build host_ok (mb (tmpFsParam default_flags)) True =
      Inr (mb (tmpFsParam default_flags))"
    by (simp_all add: host_ok_def)
  show ?thesis
    using t1 b1
      cgroup_filter_result_decides [OF t1 b1, of "Err ''open /proc/cgroups: permission denied''"]
      cgroup_filter_result_decides [OF t2 b2, of _ cgb_declared]
    by (simp add: host_cgroups_unreadable_def host_ok_def store_actions_def default_flags_def)
qed

subsection \<open>The namespace flags\<close>

lemma contains_flag:
  fixes U S F :: uintptr
  assumes "U AND S = S" "S AND F = F"
  shows "U AND F = F"
proof -
  have "U AND F = U AND (S AND F)" using assms(2) by simp
  also have "\<dots> = (U AND S) AND F" by (simp add: and.assoc)
  also have "\<dots> = F" using assms by simp
  finally show ?thesis .
qed

lemma xor_clears:
  fixes U N :: uintptr
  assumes "U AND N = N"
  shows "(U XOR N) AND N = 0"
  using assms by (simp add: bit.conj_xor_distrib2)

lemma xor_keeps:
  fixes U N F :: uintptr
  assumes "N AND F = 0"
  shows "(U XOR N) AND F = U AND F"
  using assms by (simp add: bit.conj_xor_distrib2)

lemma spec_flags:
  "spec_UnshareFlags AND CLONE_NEWNET = CLONE_NEWNET"
  "spec_UnshareFlags AND CLONE_NEWNS = CLONE_NEWNS"
  "spec_UnshareFlags AND CLONE_NEWPID = CLONE_NEWPID"
  "spec_UnshareFlags AND CLONE_NEWUTS = CLONE_NEWUTS"
  "spec_UnshareFlags AND CLONE_NEWIPC = CLONE_NEWIPC"
  "CLONE_NEWNET AND CLONE_NEWNS = 0"
  "CLONE_NEWNET AND CLONE_NEWPID = 0"
  "CLONE_NEWNET AND CLONE_NEWUTS = 0"
  "CLONE_NEWNET AND CLONE_NEWIPC = 0"
  by (simp_all add: spec_UnshareFlags_def CLONE_NEWNET_def CLONE_NEWNS_def CLONE_NEWPID_def
      CLONE_NEWUTS_def CLONE_NEWIPC_def)

text \<open>
  Claim C8. The sharing flag is off by default. For a library constant that contains
  the five namespace flags the spec lists, the container builder that \<open>main\<close> creates
  has the network-namespace flag set when sharing is off and cleared when sharing is
  on, and in both cases keeps the mount, pid, uts and ipc flags.
\<close>

theorem netShare_toggles_only_network_flag:
  assumes lib: "UnshareFlags ex AND spec_UnshareFlags = spec_UnshareFlags"
    and ok: "snd (main fl ex) = Some (b, cgb)"
  shows "netShare default_flags = False \<and>
         (\<not> netShare fl \<longrightarrow> CloneFlags b AND CLONE_NEWNET = CLONE_NEWNET) \<and>
         (netShare fl \<longrightarrow> CloneFlags b AND CLONE_NEWNET = 0) \<and>
         CloneFlags b AND CLONE_NEWNS = CLONE_NEWNS \<and>
         CloneFlags b AND CLONE_NEWPID = CLONE_NEWPID \<and>
         CloneFlags b AND CLONE_NEWUTS = CLONE_NEWUTS \<and>
         CloneFlags b AND CLONE_NEWIPC = CLONE_NEWIPC"
proof -
  let ?U = "UnshareFlags ex"
  have U: "?U AND CLONE_NEWNET = CLONE_NEWNET" "?U AND CLONE_NEWNS = CLONE_NEWNS"
    "?U AND CLONE_NEWPID = CLONE_NEWPID" "?U AND CLONE_NEWUTS = CLONE_NEWUTS"
    "?U AND CLONE_NEWIPC = CLONE_NEWIPC"
    using contains_flag [OF lib] spec_flags by simp_all
  have b: "CloneFlags b = unshareFlags ?U (netShare fl)"
    using ok by (rule main_CloneFlags)
  show ?thesis
    using U by (simp add: b unshareFlags_def default_flags_def xor_clears xor_keeps spec_flags)
qed

theorem netShare_toggles_only_network_flag_witness:
  "UnshareFlags host_ok AND spec_UnshareFlags = spec_UnshareFlags \<and>
   netShare (default_flags\<lparr>netShare := True\<rparr>) \<and>
   snd (main (default_flags\<lparr>netShare := True\<rparr>) host_ok) =
     Some (\<lparr>Root = ''/tmp/dm123'', Mounts = mb ''size=8m,nr_inodes=4k'',
             CredGenerator = newCredGen, Stderr = True,
             CloneFlags = spec_UnshareFlags XOR CLONE_NEWNET\<rparr>, cgb_declared) \<and>
   (spec_UnshareFlags XOR CLONE_NEWNET) AND CLONE_NEWNET = 0 \<and>
   (spec_UnshareFlags XOR CLONE_NEWNET) AND CLONE_NEWNS = CLONE_NEWNS \<and>
   (spec_UnshareFlags XOR CLONE_NEWNET) AND CLONE_NEWPID = CLONE_NEWPID \<and>
   (spec_UnshareFlags XOR CLONE_NEWNET) AND CLONE_NEWUTS = CLONE_NEWUTS \<and>
   (spec_UnshareFlags XOR CLONE_NEWNET) AND CLONE_NEWIPC = CLONE_NEWIPC \<and>
   \<not> netShare default_flags \<and>
   snd (main default_flags host_ok) =
     Some (\<lparr>Root = ''/tmp/dm123'', Mounts = mb ''size=8m,nr_inodes=4k'',
             CredGenerator = newCredGen, Stderr = True,
             CloneFlags = spec_UnshareFlags\<rparr>, cgb_declared) \<and>
   spec_UnshareFlags AND CLONE_NEWNET = CLONE_NEWNET"
proof -
  have lib: "UnshareFlags host_ok AND spec_UnshareFlags = spec_UnshareFlags"
    by (simp add: host_ok_def)
  have shared: "snd (main (default_flags\<lparr>netShare := True\<rparr>) host_ok) =
     Some (\<lparr>Root = ''/tmp/dm123'', Mounts = mb ''size=8m,nr_inodes=4k'',
             CredGenerator = newCredGen, Stderr = True,
             CloneFlags = spec_UnshareFlags XOR CLONE_NEWNET\<rparr>, cgb_declared)"
    by (simp add: main_host_ok_shared_net)
  have isolated: "snd (main default_flags host_ok) =
     Some (\<lparr>Root = ''/tmp/dm123'', Mounts = mb ''size=8m,nr_inodes=4k'',
             CredGenerator = newCredGen, Stderr = True,
             CloneFlags = spec_UnshareFlags\<rparr>, cgb_declared)"
    by (simp add: main_host_ok_default)
  show ?thesis
    using lib shared isolated
      netShare_toggles_only_network_flag [OF lib shared]
      netShare_toggles_only_network_flag [OF lib isolated]
    by simp
qed

section \<open>Properties of the dispatcher protocol\<close>

lemma filter_update_count:
  "i < length xs \<Longrightarrow>
     length (filter p (xs[i := y])) + (if p (xs ! i) then 1 else 0) =
     length (filter p xs) + (if p y then 1 else 0)"
proof (induction xs arbitrary: i)
  case Nil
  then show ?case by simp
next
  case (Cons x xs)
  then show ?case by (cases i) auto
qed

lemma filter_count_mono:
  "(\<And>x. x \<in> set xs \<Longrightarrow> p x \<Longrightarrow> q x) \<Longrightarrow> length (filter p xs) \<le> length (filter q xs)"
  by (induction xs) auto

lemma advance_consistent: "consistent r \<Longrightarrow> consistent (advance e r)"
  by (cases e; cases "at r") (auto simp: consistent_def)

lemma consistent_env_slot: "consistent r \<Longrightarrow> env r \<Longrightarrow> slot r"
  by (cases "at r") (auto simp: consistent_def)

lemma step_length: "length (step P e rs) = length rs"
  by (simp add: step_def)

lemma run_length: "length (run P es rs) = length rs"
  by (induction es arbitrary: rs) (simp_all add: step_length)

lemma step_consistent:
  assumes "\<forall>r \<in> set rs. consistent r"
  shows "\<forall>r \<in> set (step P e rs). consistent r"
proof (cases "target e < length rs \<and> \<not> blocked P e rs")
  case True
  then have "consistent (advance e (rs ! target e))"
    using assms by (simp add: advance_consistent)
  with assms True show ?thesis
    using set_update_subset_insert [of rs "target e" "advance e (rs ! target e)"]
    by (auto simp: step_def)
next
  case False
  with assms show ?thesis by (auto simp: step_def)
qed

text \<open>Only \<open>Acquire\<close> takes a slot, and it is blocked when all \<open>P\<close> are taken.\<close>

lemma step_slots:
  assumes "slots_in_use rs \<le> P"
  shows "slots_in_use (step P e rs) \<le> P"
proof (cases "target e < length rs \<and> \<not> blocked P e rs")
  case False
  with assms show ?thesis by (auto simp: step_def)
next
  case True
  let ?r = "rs ! target e"
  from True have cnt:
    "slots_in_use (step P e rs) + (if slot ?r then 1 else 0) =
     slots_in_use rs + (if slot (advance e ?r) then 1 else 0)"
    using filter_update_count [of "target e" rs slot "advance e ?r"]
    by (simp add: step_def slots_in_use_def)
  show ?thesis
  proof (cases e)
    case (Acquire i)
    with True have "slots_in_use rs < P" by simp
    with cnt show ?thesis by (simp split: if_splits)
  next
    case (EnvReady i) with cnt assms show ?thesis by (auto split: if_splits)
  next
    case (EnvFailed i) with cnt assms show ?thesis by (auto split: if_splits)
  next
    case (CgroupReady i) with cnt assms show ?thesis by (auto split: if_splits)
  next
    case (CgroupFailed i) with cnt assms show ?thesis by (auto split: if_splits)
  next
    case (Finish i out) with cnt assms show ?thesis by (auto split: if_splits)
  next
    case (Release i) with cnt assms show ?thesis by (cases "at ?r") (auto split: if_splits)
  next
    case (Return i) with cnt assms show ?thesis by (cases "at ?r") (auto split: if_splits)
  qed
qed

lemma run_invariant:
  "slots_in_use rs \<le> P \<Longrightarrow> \<forall>r \<in> set rs. consistent r \<Longrightarrow>
     slots_in_use (run P es rs) \<le> P \<and> (\<forall>r \<in> set (run P es rs). consistent r)"
proof (induction es arbitrary: rs)
  case Nil
  then show ?case by simp
next
  case (Cons e es)
  from Cons.prems have
    "slots_in_use (step P e rs) \<le> P" "\<forall>r \<in> set (step P e rs). consistent r"
    by (simp_all add: step_slots step_consistent)
  from Cons.IH [OF this] show ?case by simp
qed

lemma submitted_invariant:
  "slots_in_use (submitted N) \<le> P" "\<forall>r \<in> set (submitted N). consistent r"
  by (simp_all add: slots_in_use_def submitted_def consistent_def)

lemma checked_out_le_slots:
  "\<forall>r \<in> set rs. consistent r \<Longrightarrow> checked_out rs \<le> slots_in_use rs"
  unfolding checked_out_def slots_in_use_def
  by (rule filter_count_mono) (simp add: consistent_env_slot)

text \<open>
  The scenario of the spec: parallelism 2 and three requests. Two of them get a slot
  and an Environment; the third waits, and is served once the first has released its
  slot.
\<close>

lemma three_requests_two_slots:
  "map at (run 2 [Acquire 0, Acquire 1, Acquire 2, EnvReady 0, EnvReady 1, EnvReady 2]
             (submitted 3)) = [HasEnv, HasEnv, Waiting]"
  "map at (run 2 [Acquire 0, Acquire 1, Acquire 2, EnvReady 0, CgroupReady 0, Finish 0 TimedOut,
                  Release 0, Release 0, Release 0, Acquire 2]
             (submitted 3)) = [Respond (Executed TimedOut), HasSlot, HasSlot]"
  by code_simp+

text \<open>
  Claim C1. Whatever the number \<open>N\<close> of requests, the parallelism \<open>P\<close> and the
  interleaving of their steps, the number of Environments checked out at the same time
  is at most \<open>P\<close>.
\<close>

theorem checked_out_never_exceeds_parallelism:
  "checked_out (run P evs (submitted N)) \<le> P"
proof -
  have inv: "slots_in_use (run P evs (submitted N)) \<le> P"
    "\<forall>r \<in> set (run P evs (submitted N)). consistent r"
    using run_invariant [OF submitted_invariant(1) submitted_invariant(2), where es = evs]
    by simp_all
  from checked_out_le_slots [OF inv(2)] inv(1) show ?thesis by simp
qed

text \<open>
  Claim C2. In every state of every run, a request whose result has been returned to
  the caller holds neither the concurrency slot nor an Environment nor a
  CgroupInstance, whatever the result; and a request that is running reaches the
  return with any outcome of the execution (success, timeout, crash or error), holding
  nothing.
\<close>

theorem released_before_result_returned:
  assumes "i < N"
  shows "(at (run P evs (submitted N) ! i) = Returned res \<longrightarrow>
            \<not> slot (run P evs (submitted N) ! i) \<and> \<not> env (run P evs (submitted N) ! i) \<and>
            \<not> cgroup (run P evs (submitted N) ! i)) \<and>
         (at (run P evs (submitted N) ! i) = Running \<longrightarrow>
            run P [Finish i out, Release i, Release i, Release i, Return i]
              (run P evs (submitted N)) ! i =
            \<lparr>at = Returned (Executed out), slot = False, env = False, cgroup = False\<rparr>)"
proof -
  let ?s = "run P evs (submitted N)"
  have len: "length ?s = N" by (simp add: run_length submitted_def)
  with assms have "?s ! i \<in> set ?s" by simp
  moreover have "\<forall>r \<in> set ?s. consistent r"
    using run_invariant [OF submitted_invariant(1) submitted_invariant(2), where es = evs]
    by simp
  ultimately have "consistent (?s ! i)" by blast
  then have "at (?s ! i) = Returned res \<longrightarrow>
      \<not> slot (?s ! i) \<and> \<not> env (?s ! i) \<and> \<not> cgroup (?s ! i)"
    by (auto simp: consistent_def)
  moreover have "at (?s ! i) = Running \<longrightarrow>
      run P [Finish i out, Release i, Release i, Release i, Return i] ?s ! i =
      \<lparr>at = Returned (Executed out), slot = False, env = False, cgroup = False\<rparr>"
    using assms len by (simp add: step_def)
  ultimately show ?thesis by simp
qed

theorem released_before_result_returned_witness:
  "(0::nat) < 1 \<and>
   run 1 [Acquire 0, EnvReady 0, CgroupReady 0, Finish 0 Crashed, Release 0, Release 0,
          Release 0, Return 0] (submitted 1) =
     [\<lparr>at = Returned (Executed Crashed), slot = False, env = False, cgroup = False\<rparr>] \<and>
   at (run 1 [Acquire 0, EnvReady 0, CgroupReady 0] (submitted 1) ! 0) = Running \<and>
   run 1 [Finish 0 TimedOut, Release 0, Release 0, Release 0, Return 0]
     (run 1 [Acquire 0, EnvReady 0, CgroupReady 0] (submitted 1)) ! 0 =
     \<lparr>at = Returned (Executed TimedOut), slot = False, env = False, cgroup = False\<rparr>"
proof -
  have h: "(0::nat) < 1" by simp
  have r: "run 1 [Acquire 0, EnvReady 0, CgroupReady 0, Finish 0 Crashed, Release 0, Release 0,
          Release 0, Return 0] (submitted 1) =
     [\<lparr>at = Returned (Executed Crashed), slot = False, env = False, cgroup = False\<rparr>]"
    by code_simp
  have q: "at (run 1 [Acquire 0, EnvReady 0, CgroupReady 0] (submitted 1) ! 0) = Running"
    by code_simp
  show ?thesis
    using h r q
      released_before_result_returned [OF h, of 1 "[Acquire 0, EnvReady 0, CgroupReady 0, Finish 0 Crashed, Release 0, Release 0, Release 0, Return 0]" "Executed Crashed" TimedOut]
      released_before_result_returned [OF h, of 1 "[Acquire 0, EnvReady 0, CgroupReady 0]" "Executed Crashed" TimedOut]
    by simp
qed

end
